theory Spec2Isabelle
  imports Complex_Main "HOL-Library.Sublist"
begin

section \<open>JavaScript values and plain objects\<close>

text \<open>
  The values that \<open>JSON.parse\<close> and property reads produce.  \<open>Obj\<close> holds the own
  properties of an object, each key once; \<open>Undefined\<close> is what reading an absent
  property gives.
\<close>

datatype jsval =
    Undefined
  | Null
  | Bool bool
  | Num real
  | Str string
  | Arr "jsval list"
  | Obj "(string \<times> jsval) list"

datatype js_error = TypeError

text \<open>Truthiness, as \<open>if (v)\<close>, \<open>!v\<close> and \<open>&&\<close> test it.\<close>

fun truthy :: "jsval \<Rightarrow> bool" where
  "truthy Undefined = False"
| "truthy Null = False"
| "truthy (Bool b) = b"
| "truthy (Num r) = (r \<noteq> 0)"
| "truthy (Str s) = (s \<noteq> [])"
| "truthy (Arr xs) = True"
| "truthy (Obj kvs) = True"

text \<open>
  \<open>v.k\<close> for the two fixed keys the aggregation reads on parsed data, \<open>details\<close> and
  \<open>location\<close>: no built-in prototype defines either, so only an object's own
  properties answer, and reading a property of \<open>null\<close> or \<open>undefined\<close> throws.
\<close>

fun read_prop :: "jsval \<Rightarrow> string \<Rightarrow> js_error + jsval" where
  "read_prop Null k = Inl TypeError"
| "read_prop Undefined k = Inl TypeError"
| "read_prop (Obj kvs) k = Inr (case map_of kvs k of Some v \<Rightarrow> v | None \<Rightarrow> Undefined)"
| "read_prop v k = Inr Undefined"

text \<open>
  The tables of the program are object literals, and \<open>stats\<close> starts as \<open>{}\<close>: a read
  \<open>o[k]\<close> with a computed key answers from the own properties first and from
  \<open>Object.prototype\<close> after them.  \<open>Object_prototype_keys\<close> are the names every plain
  object inherits (all of them functions, or the prototype object itself under
  \<open>__proto__\<close>, so all truthy).  \<open>extra\<close> lists the names that were assigned on
  \<open>Object.prototype\<close> while the program ran; the only values the aggregation ever
  stores there are \<open>NaN\<close>.
\<close>

definition Object_prototype_keys :: "string list" where
  "Object_prototype_keys =
     [''constructor'', ''__defineGetter__'', ''__defineSetter__'', ''hasOwnProperty'',
      ''__lookupGetter__'', ''__lookupSetter__'', ''isPrototypeOf'',
      ''propertyIsEnumerable'', ''toString'', ''valueOf'', ''__proto__'',
      ''toLocaleString'']"

datatype 'a member = Own 'a | Inherited string | NaN | Absent

definition lookup :: "string list \<Rightarrow> (string \<times> 'a) list \<Rightarrow> string \<Rightarrow> 'a member" where
  "lookup extra own k =
     (case map_of own k of
        Some v \<Rightarrow> Own v
      | None \<Rightarrow>
          if k \<in> set Object_prototype_keys then Inherited k
          else if k \<in> set extra then NaN
          else Absent)"

text \<open>Own values of the tables are arrays or objects, hence truthy.\<close>

fun present :: "'a member \<Rightarrow> bool" where
  "present (Own v) = True"
| "present (Inherited k) = True"
| "present NaN = False"
| "present Absent = False"

text \<open>
  \<open>o[k] = v\<close> on own properties: an existing key keeps its place, a new key goes to
  the end (the order \<open>Object.values\<close> enumerates names that are not array indices).
\<close>

fun assign :: "string \<Rightarrow> 'a \<Rightarrow> (string \<times> 'a) list \<Rightarrow> (string \<times> 'a) list" where
  "assign k v [] = [(k, v)]"
| "assign k v (p # ps) = (if fst p = k then (k, v) # ps else p # assign k v ps)"

section \<open>Strings\<close>

text \<open>
  Text is modelled over ASCII: \<open>toLowerCase\<close> maps \<open>A\<close>..\<open>Z\<close> to \<open>a\<close>..\<open>z\<close> and leaves
  every other character, \<open>trim\<close> removes leading and trailing space, tab, line feed,
  vertical tab, form feed and carriage return.  On text outside ASCII the functions of
  the runtime do more (they fold other letters and strip no-break space, the byte
  order mark and the Unicode separators); such text is outside the model.
\<close>

definition lower_char :: "char \<Rightarrow> char" where
  "lower_char c =
     (case map_of (zip ''ABCDEFGHIJKLMNOPQRSTUVWXYZ'' ''abcdefghijklmnopqrstuvwxyz'') c of
        Some d \<Rightarrow> d
      | None \<Rightarrow> c)"

definition upper_char :: "char \<Rightarrow> char" where
  "upper_char c =
     (case map_of (zip ''abcdefghijklmnopqrstuvwxyz'' ''ABCDEFGHIJKLMNOPQRSTUVWXYZ'') c of
        Some d \<Rightarrow> d
      | None \<Rightarrow> c)"

definition toLowerCase :: "string \<Rightarrow> string" where
  "toLowerCase s = map lower_char s"

definition toUpperCase :: "string \<Rightarrow> string" where
  "toUpperCase s = map upper_char s"

definition is_space :: "char \<Rightarrow> bool" where
  "is_space c = (c \<in> set [CHR '' '', CHR 0x09, CHR 0x0A, CHR 0x0B, CHR 0x0C, CHR 0x0D])"

definition trim :: "string \<Rightarrow> string" where
  "trim s = rev (dropWhile is_space (rev (dropWhile is_space s)))"

text \<open>\<open>s.includes(t)\<close>: \<open>t\<close> occurs in \<open>s\<close> as a contiguous substring.\<close>

fun str_includes :: "string \<Rightarrow> string \<Rightarrow> bool" where
  "str_includes [] t = (t = [])"
| "str_includes (x # xs) t = (prefix t (x # xs) \<or> str_includes xs t)"

text \<open>\<open>c.charAt(0).toUpperCase() + c.slice(1)\<close>.\<close>

definition capitalize :: "string \<Rightarrow> string" where
  "capitalize c = toUpperCase (take 1 c) @ drop 1 c"

section \<open>The coordinate tables\<close>

type_synonym lonlat = "real \<times> real"

definition cityCoordinates :: "(string \<times> lonlat) list" where
  "cityCoordinates =
     [(''new york, usa'', (-74.006, 40.7128)),
      (''san francisco, usa'', (-122.4194, 37.7749)),
      (''los angeles, usa'', (-118.2437, 34.0522)),
      (''toronto, canada'', (-79.3832, 43.6532)),
      (''vancouver, canada'', (-123.1207, 49.2827)),
      (''austin, usa'', (-97.7431, 30.2672)),
      (''chicago, usa'', (-87.6298, 41.8781)),
      (''london, uk'', (-0.1276, 51.5074)),
      (''paris, france'', (2.3522, 48.8566)),
      (''berlin, germany'', (13.4050, 52.5200)),
      (''munich, germany'', (11.5820, 48.1351)),
      (''amsterdam, netherlands'', (4.9041, 52.3676)),
      (''copenhagen, denmark'', (12.5683, 55.6761)),
      (''stockholm, sweden'', (18.0686, 59.3293)),
      (''zurich, switzerland'', (8.5417, 47.3769)),
      (''dublin, ireland'', (-6.2603, 53.3498)),
      (''singapore'', (103.8198, 1.3521)),
      (''sydney, australia'', (151.2093, -33.8688)),
      (''melbourne, australia'', (144.9631, -37.8136)),
      (''tokyo, japan'', (139.6917, 35.6895)),
      (''seoul, south korea'', (126.9780, 37.5665)),
      (''beijing, china'', (116.4074, 39.9042)),
      (''shanghai, china'', (121.4737, 31.2304)),
      (''mumbai, india'', (72.8777, 19.0760)),
      (''bengaluru, india'', (77.5946, 12.9716)),
      (''dubai, uae'', (55.2708, 25.2048)),
      (''abu dhabi, uae'', (54.3773, 24.4539)),
      (''riyadh, saudi arabia'', (46.6753, 24.7136)),
      (''doha, qatar'', (51.5310, 25.2854)),
      (''tel aviv, israel'', (34.7818, 32.0853)),
      (''istanbul, turkey'', (28.9784, 41.0082)),
      (''madrid, spain'', (-3.7038, 40.4168)),
      (''barcelona, spain'', (2.1734, 41.3851)),
      (''rome, italy'', (12.4964, 41.9028)),
      (''milan, italy'', (9.1900, 45.4642)),
      (''brussels, belgium'', (4.3517, 50.8503)),
      (''vienna, austria'', (16.3738, 48.2082)),
      (''warsaw, poland'', (21.0122, 52.2297)),
      (''oslo, norway'', (10.7522, 59.9139)),
      (''helsinki, finland'', (24.9384, 60.1699)),
      (''sao paulo, brazil'', (-46.6333, -23.5505)),
      (''buenos aires, argentina'', (-58.3816, -34.6037)),
      (''cape town, south africa'', (18.4241, -33.9249)),
      (''johannesburg, south africa'', (28.0473, -26.2041)),
      (''cairo, egypt'', (31.2357, 30.0444))]"

definition countryCoordinates :: "(string \<times> lonlat) list" where
  "countryCoordinates =
     [(''usa'', (-95.7129, 37.0902)),
      (''canada'', (-106.3468, 56.1304)),
      (''uk'', (-3.435, 55.378)),
      (''france'', (2.2137, 46.2276)),
      (''germany'', (10.4515, 51.1657)),
      (''australia'', (133.7751, -25.2744)),
      (''japan'', (138.2529, 36.2048)),
      (''china'', (104.1954, 35.8617)),
      (''india'', (78.9629, 20.5937)),
      (''brazil'', (-51.9253, -14.2350)),
      (''south africa'', (22.9375, -30.5595))]"

text \<open>
  \<open>Object.keys\<close> lists the own names of an object in the order of their creation
  (none of them is an array index).
\<close>

definition Object_keys :: "(string \<times> 'a) list \<Rightarrow> string list" where
  "Object_keys own = map fst own"

section \<open>News items and buckets\<close>

text \<open>
  A row of \<open>CompetitorNews\<close>: \<open>region\<close> is nullable text, \<open>threatLevel\<close> an integer,
  \<open>details\<close> text.  The aggregation reads \<open>details\<close> only through
  \<open>JSON.parse(item.details)\<close>, the parser of the runtime, so the record holds the
  outcome of that call: \<open>SyntaxError\<close> when the text is not JSON (the empty text
  included), \<open>Parsed v\<close> with the value otherwise.
\<close>

datatype parse_result = SyntaxError | Parsed jsval

record news_item =
  region :: "string option"
  details :: parse_result
  threatLevel :: int

text \<open>
  What \<open>finalCoords\<close> can hold: a pair from a table or a literal, or the built-in
  member of \<open>Object.prototype\<close> that a table read returned.
\<close>

datatype coords = LonLat real real | Builtin string

record bucket =
  count :: nat
  maxThreat :: int
  name :: string
  coordinates :: coords

text \<open>
  The state of the \<open>forEach\<close>: the locals \<open>stats\<close> and \<open>global\<close>, and the names
  assigned on \<open>Object.prototype\<close> so far.
\<close>

record agg_state =
  stats :: "(string \<times> bucket) list"
  global :: nat
  extra :: "string list"

record map_stats =
  regionStats :: "bucket list"
  globalCount :: nat

section \<open>The aggregation of \<open>SurveillanceMap\<close>\<close>

text \<open>
  The \<open>try\<close> block: \<open>parsed\<close> starts as \<open>{}\<close>; a \<open>SyntaxError\<close> leaves it; otherwise it
  is assigned the parsed value, and then replaced by its \<open>details\<close> member when that
  and its \<open>location\<close> are truthy.  Reading \<open>parsed.details\<close> of \<open>null\<close> throws inside the
  \<open>try\<close>, after the assignment, so \<open>parsed\<close> stays \<open>null\<close>.
\<close>

definition try_parse :: "parse_result \<Rightarrow> jsval" where
  "try_parse d =
     (case d of
        SyntaxError \<Rightarrow> Obj []
      | Parsed v \<Rightarrow>
          (case read_prop v ''details'' of
             Inl e \<Rightarrow> v
           | Inr dv \<Rightarrow>
               if truthy dv then
                 (case read_prop dv ''location'' of
                    Inl e \<Rightarrow> v
                  | Inr l \<Rightarrow> if truthy l then dv else v)
               else v))"

text \<open>A table read stored in \<open>finalCoords\<close>; \<open>None\<close> is a falsy \<open>finalCoords\<close>.\<close>

fun as_coords :: "lonlat member \<Rightarrow> coords option" where
  "as_coords (Own (x, y)) = Some (LonLat x y)"
| "as_coords (Inherited k) = Some (Builtin k)"
| "as_coords NaN = None"
| "as_coords Absent = None"

text \<open>
  The body of \<open>if (parsed.location)\<close>, from the current \<open>locationName\<close> to the pair
  \<open>(locationName, finalCoords)\<close>.  A truthy location that is not a string has no
  \<open>toLowerCase\<close>, and calling it throws.
\<close>

definition locate :: "string list \<Rightarrow> string \<Rightarrow> jsval \<Rightarrow> js_error + string \<times> coords option" where
  "locate ex locationName l =
     (case l of
        Str s \<Rightarrow>
          (let loc = trim (toLowerCase s) in
           if present (lookup ex cityCoordinates loc)
           then Inr (s, as_coords (lookup ex cityCoordinates loc))
           else
             (case find (\<lambda>c. str_includes loc c) (Object_keys countryCoordinates) of
                Some countryMatch \<Rightarrow>
                  Inr (capitalize countryMatch,
                       as_coords (lookup ex countryCoordinates countryMatch))
              | None \<Rightarrow> Inr (locationName, None)))
      | _ \<Rightarrow> Inl TypeError)"

text \<open>The region centres of \<open>if (!finalCoords)\<close>; \<open>None\<close> is the \<open>else\<close> branch.\<close>

definition region_center :: "string \<Rightarrow> coords option" where
  "region_center locationName =
     (if locationName = ''MENA'' then Some (LonLat 45 25)
      else if locationName = ''Europe'' then Some (LonLat 15 50)
      else if locationName = ''North America'' then Some (LonLat (-100) 40)
      else if locationName = ''APAC'' then Some (LonLat 100 20)
      else if locationName = ''South America'' then Some (LonLat (-60) (-15))
      else None)"

text \<open>\<open>item.region || "Global"\<close>: \<open>null\<close> and the empty text are falsy.\<close>

definition candidate_label :: "news_item \<Rightarrow> string" where
  "candidate_label item =
     (case region item of
        Some r \<Rightarrow> if r \<noteq> [] then r else ''Global''
      | None \<Rightarrow> ''Global'')"

text \<open>
  Lines 105 to 155 for one item: \<open>Inr None\<close> is \<open>global++; return\<close>, \<open>Inr (Some (n, c))\<close>
  goes on to the bucket update with \<open>locationName = n\<close> and \<open>finalCoords = c\<close>.
\<close>

definition resolve :: "string list \<Rightarrow> news_item \<Rightarrow> js_error + (string \<times> coords) option" where
  "resolve ex item =
     (let locationName = candidate_label item;
          parsed = try_parse (details item)
      in case read_prop parsed ''location'' of
           Inl e \<Rightarrow> Inl e
         | Inr l \<Rightarrow>
             (case (if truthy l then locate ex locationName l else Inr (locationName, None)) of
                Inl e \<Rightarrow> Inl e
              | Inr (n, Some c) \<Rightarrow> Inr (Some (n, c))
              | Inr (n, None) \<Rightarrow>
                  (case region_center n of
                     Some c \<Rightarrow> Inr (Some (n, c))
                   | None \<Rightarrow> Inr None)))"

text \<open>
  Lines 157 to 167.  When \<open>stats[locationName]\<close> is an inherited member, nothing is
  created and the two assignments land on that built-in object: on
  \<open>Object.prototype\<close> itself for \<open>__proto__\<close>, on a function otherwise.  Both store
  \<open>NaN\<close> (\<open>undefined + 1\<close>, \<open>Math.max(undefined, _)\<close>); neither touches \<open>stats\<close>.
\<close>

definition upsert :: "agg_state \<Rightarrow> string \<Rightarrow> coords \<Rightarrow> int \<Rightarrow> js_error + agg_state" where
  "upsert s locationName finalCoords lvl =
     (let st =
            (if \<not> present (lookup (extra s) (stats s) locationName)
             then assign locationName
                    \<lparr>count = 0, maxThreat = 0, name = locationName,
                     coordinates = finalCoords\<rparr> (stats s)
             else stats s)
      in case lookup (extra s) st locationName of
           Own b \<Rightarrow>
             Inr (s\<lparr>stats :=
                      assign locationName
                        (b\<lparr>count := count b + 1, maxThreat := max (maxThreat b) lvl\<rparr>) st\<rparr>)
         | Inherited k \<Rightarrow>
             Inr (if k = ''__proto__''
                  then s\<lparr>extra := ''count'' # ''maxThreat'' # extra s\<rparr>
                  else s)
         | _ \<Rightarrow> Inl TypeError)"

definition process_item :: "agg_state \<Rightarrow> news_item \<Rightarrow> js_error + agg_state" where
  "process_item s item =
     (case resolve (extra s) item of
        Inl e \<Rightarrow> Inl e
      | Inr None \<Rightarrow> Inr (s\<lparr>global := global s + 1\<rparr>)
      | Inr (Some (locationName, finalCoords)) \<Rightarrow>
          upsert s locationName finalCoords (threatLevel item))"

text \<open>\<open>news.forEach\<close>: an exception of the callback ends the loop and propagates.\<close>

fun forEach :: "agg_state \<Rightarrow> news_item list \<Rightarrow> js_error + agg_state" where
  "forEach s [] = Inr s"
| "forEach s (item # news) =
     (case process_item s item of
        Inl e \<Rightarrow> Inl e
      | Inr s' \<Rightarrow> forEach s' news)"

text \<open>
  The callback of \<open>useMemo\<close>, run where \<open>Object.prototype\<close> carries the extra names
  \<open>ex\<close>: fresh \<open>stats\<close> and \<open>global\<close>, the loop, then \<open>Object.values(stats)\<close>.
\<close>

definition initial :: "string list \<Rightarrow> agg_state" where
  "initial ex = \<lparr>stats = [], global = 0, extra = ex\<rparr>"

definition aggregate :: "string list \<Rightarrow> news_item list \<Rightarrow> js_error + map_stats" where
  "aggregate ex news =
     (case forEach (initial ex) news of
        Inl e \<Rightarrow> Inl e
      | Inr s \<Rightarrow> Inr \<lparr>regionStats = map snd (stats s), globalCount = global s\<rparr>)"

section \<open>The region filter of the home page\<close>

definition regionMappings :: "(string \<times> string list) list" where
  "regionMappings =
     [(''North America'', [''north america'', ''us'', ''usa'', ''canada'', ''america'']),
      (''Europe'',
         [''europe'', ''uk'', ''germany'', ''france'', ''spain'', ''italy'', ''netherlands'',
          ''sweden'', ''denmark'', ''ireland'', ''switzerland'', ''belgium'', ''austria'',
          ''poland'', ''norway'', ''finland'']),
      (''MENA'',
         [''mena'', ''middle east'', ''uae'', ''saudi'', ''qatar'', ''dubai'', ''abu dhabi'',
          ''israel'', ''turkey'', ''egypt'']),
      (''APAC'',
         [''apac'', ''asia'', ''china'', ''japan'', ''korea'', ''india'', ''singapore'',
          ''australia'', ''pacific'']),
      (''Global'', [''global''])]"

text \<open>
  The part of the \<open>where\<close> object that the block on \<open>searchParams.region\<close> writes: nothing,
  \<open>where.OR\<close> (a list of \<open>{region: {contains: k, mode: 'insensitive'}}\<close>), or
  \<open>where.region = {equals: v, mode: 'insensitive'}\<close>.
\<close>

datatype string_filter = Contains string | Equals string

datatype region_where = Unfiltered | OR "string_filter list" | Region string_filter

text \<open>
  \<open>regionMappings[regionVal]\<close> is a read on an object literal.  An own entry is an array;
  an inherited member is truthy and has no \<open>map\<close>, so \<open>keywords.map\<close> throws.
\<close>

definition region_filter :: "string list \<Rightarrow> string option \<Rightarrow> js_error + region_where" where
  "region_filter ex region_param =
     (case region_param of
        None \<Rightarrow> Inr Unfiltered
      | Some r \<Rightarrow>
          if r = [] then Inr Unfiltered
          else
            (let regionVal = (if r = ''Middle East'' then ''MENA'' else r) in
             case lookup ex regionMappings regionVal of
               Own keywords \<Rightarrow> Inr (OR (map Contains keywords))
             | Inherited k \<Rightarrow> Inl TypeError
             | _ \<Rightarrow> Inr (Region (Equals regionVal))))"


section \<open>Reading the result against the input\<close>

text \<open>
  The items for which lines 105 to 155 end with \<open>locationName = n\<close> and coordinates
  (\<open>placed_at\<close>), those that reach \<open>global++\<close> (\<open>unplaced\<close>), and those whose
  \<open>locationName\<close> is an inherited member of \<open>stats\<close> (\<open>dropped\<close>).
\<close>

definition placed_at :: "string list \<Rightarrow> string \<Rightarrow> news_item \<Rightarrow> bool" where
  "placed_at ex n item = (case resolve ex item of Inr (Some (n', c)) \<Rightarrow> n' = n | _ \<Rightarrow> False)"

definition items_in :: "string list \<Rightarrow> string \<Rightarrow> news_item list \<Rightarrow> news_item list" where
  "items_in ex n news = filter (placed_at ex n) news"

definition unplaced :: "string list \<Rightarrow> news_item \<Rightarrow> bool" where
  "unplaced ex item = (resolve ex item = Inr None)"

definition dropped :: "string list \<Rightarrow> news_item \<Rightarrow> bool" where
  "dropped ex item =
     (case resolve ex item of Inr (Some (n, c)) \<Rightarrow> n \<in> set Object_prototype_keys | _ \<Rightarrow> False)"

text \<open>\<open>parsed.location\<close> after the \<open>try\<close> block.\<close>

abbreviation parsed_location :: "news_item \<Rightarrow> js_error + jsval" where
  "parsed_location item \<equiv> read_prop (try_parse (details item)) ''location''"

text \<open>
  The items that leave \<open>if (parsed.location)\<close> with \<open>finalCoords\<close> still \<open>null\<close>: no
  usable location text, or a text for which the city read is falsy and no country
  key is a substring.
\<close>

definition no_match :: "string list \<Rightarrow> news_item \<Rightarrow> bool" where
  "no_match ex item =
     (case parsed_location item of
        Inl e \<Rightarrow> False
      | Inr (Str s) \<Rightarrow>
          s = [] \<or>
          (\<not> present (lookup ex cityCoordinates (trim (toLowerCase s))) \<and>
           find (\<lambda>c. str_includes (trim (toLowerCase s)) c) (Object_keys countryCoordinates)
             = None)
      | Inr l \<Rightarrow> \<not> truthy l)"

definition region_labels :: "string list" where
  "region_labels = [''MENA'', ''Europe'', ''North America'', ''APAC'', ''South America'']"

text \<open>The loop invariant: what \<open>stats\<close> and \<open>global\<close> hold after the items \<open>news\<close>.\<close>

definition bucket_ok :: "news_item list \<Rightarrow> string \<Rightarrow> bucket \<Rightarrow> bool" where
  "bucket_ok news n b \<longleftrightarrow>
     name b = n \<and> n \<notin> set Object_prototype_keys \<and> 1 \<le> count b \<and>
     count b = length (items_in [] n news) \<and>
     maxThreat b = Max (insert 0 (threatLevel ` set (items_in [] n news))) \<and>
     (\<exists>i \<in> set news. resolve [] i = Inr (Some (n, coordinates b)))"

definition tallied :: "news_item list \<Rightarrow> agg_state \<Rightarrow> bool" where
  "tallied news s \<longleftrightarrow>
     distinct (map fst (stats s)) \<and>
     (\<forall>n b. map_of (stats s) n = Some b \<longrightarrow> bucket_ok news n b) \<and>
     (\<forall>n. map_of (stats s) n = None \<longrightarrow>
          n \<in> set Object_prototype_keys \<or> items_in [] n news = []) \<and>
     global s = length (filter (unplaced []) news) \<and>
     sum_list (map (count \<circ> snd) (stats s)) + global s + length (filter (dropped []) news)
       = length news"

text \<open>The declaration order of the country table, as written in the source.\<close>

definition country_order :: "string list" where
  "country_order =
     [''usa'', ''canada'', ''uk'', ''france'', ''germany'', ''australia'', ''japan'', ''china'',
      ''india'', ''brazil'', ''south africa'']"

section \<open>Sample inputs\<close>

definition europe_twice :: "news_item list" where
  "europe_twice =
     [\<lparr>region = Some ''Europe'', details = SyntaxError, threatLevel = 2\<rparr>,
      \<lparr>region = None, details = SyntaxError, threatLevel = 5\<rparr>,
      \<lparr>region = Some ''Europe'', details = Parsed (Obj []), threatLevel = 4\<rparr>]"

text \<open>The row whose details are the JSON text \<open>{"location":"constructor"}\<close>.\<close>

definition constructor_item :: news_item where
  "constructor_item =
     \<lparr>region = None, details = Parsed (Obj [(''location'', Str ''constructor'')]),
      threatLevel = 3\<rparr>"

definition negative_item :: news_item where
  "negative_item = \<lparr>region = Some ''Europe'', details = SyntaxError, threatLevel = - 1\<rparr>"

text \<open>
  The row whose details are \<open>{"location":"Tokyo, Japan"}\<close>, and the same place in
  capitals.
\<close>

definition tokyo_item :: news_item where
  "tokyo_item =
     \<lparr>region = Some ''APAC'', details = Parsed (Obj [(''location'', Str ''Tokyo, Japan'')]),
      threatLevel = 3\<rparr>"

definition shouting_tokyo_item :: news_item where
  "shouting_tokyo_item =
     \<lparr>region = None, details = Parsed (Obj [(''location'', Str ''TOKYO, JAPAN'')]),
      threatLevel = 4\<rparr>"

definition europe_item :: news_item where
  "europe_item = \<lparr>region = Some ''Europe'', details = SyntaxError, threatLevel = 2\<rparr>"

definition unlabelled_item :: news_item where
  "unlabelled_item = \<lparr>region = None, details = SyntaxError, threatLevel = 5\<rparr>"

text \<open>The row whose details are \<open>{"location":"__proto__"}\<close>.\<close>

definition proto_item :: news_item where
  "proto_item =
     \<lparr>region = Some ''Europe'', details = Parsed (Obj [(''location'', Str ''__proto__'')]),
      threatLevel = 2\<rparr>"

text \<open>The row of region \<open>Europe\<close> whose details are \<open>{"location":"Constructor"}\<close>.\<close>

definition capital_constructor_item :: news_item where
  "capital_constructor_item =
     \<lparr>region = Some ''Europe'', details = Parsed (Obj [(''location'', Str ''Constructor'')]),
      threatLevel = 2\<rparr>"
section \<open>Lookups, assignments and the environment\<close>

lemma present_lookup:
  "present (lookup ex own k) \<longleftrightarrow> map_of own k \<noteq> None \<or> k \<in> set Object_prototype_keys"
  by (simp add: lookup_def split: option.split)

lemma as_coords_lookup_env: "as_coords (lookup ex t k) = as_coords (lookup [] t k)"
  by (simp add: lookup_def split: option.split)

lemma locate_env: "locate ex n l = locate [] n l"
  unfolding locate_def Let_def
  by (simp only: present_lookup as_coords_lookup_env [of ex])

lemma resolve_env: "resolve ex item = resolve [] item"
  unfolding resolve_def Let_def by (simp only: locate_env [of ex])

lemma map_of_assign: "map_of (assign k v al) = (map_of al)(k \<mapsto> v)"
  by (induction al) (auto simp: fun_eq_iff)

lemma keys_assign:
  "map fst (assign k v al) = (if k \<in> set (map fst al) then map fst al else map fst al @ [k])"
  by (induction al) auto

lemma distinct_assign: "distinct (map fst al) \<Longrightarrow> distinct (map fst (assign k v al))"
  by (simp add: keys_assign)

lemma assign_assign: "assign k v (assign k w al) = assign k v al"
  by (induction al) auto

lemma forEach_snoc:
  "forEach s (xs @ [x]) = (case forEach s xs of Inl e \<Rightarrow> Inl e | Inr s' \<Rightarrow> process_item s' x)"
  by (induction xs arbitrary: s) (auto split: sum.splits)

lemma upsert_own:
  "map_of (stats s) n = Some b \<Longrightarrow>
   upsert s n c lvl =
     Inr (s\<lparr>stats := assign n (b\<lparr>count := count b + 1, maxThreat := max (maxThreat b) lvl\<rparr>) (stats s)\<rparr>)"
  by (simp add: upsert_def lookup_def)

lemma upsert_inherited:
  "map_of (stats s) n = None \<Longrightarrow> n \<in> set Object_prototype_keys \<Longrightarrow>
   \<exists>ex'. upsert s n c lvl = Inr (s\<lparr>extra := ex'\<rparr>)"
  apply (simp add: upsert_def lookup_def)
  by (metis agg_state.surjective agg_state.update_convs(3))

lemma upsert_fresh:
  "map_of (stats s) n = None \<Longrightarrow> n \<notin> set Object_prototype_keys \<Longrightarrow>
   upsert s n c lvl =
     Inr (s\<lparr>stats := assign n \<lparr>count = 1, maxThreat = max 0 lvl, name = n, coordinates = c\<rparr> (stats s)\<rparr>)"
  by (simp add: upsert_def lookup_def map_of_assign assign_assign split: option.split)

section \<open>The loop invariant\<close>

lemma tallied_I:
  assumes "distinct (map fst (stats s))"
    "\<And>n b. map_of (stats s) n = Some b \<Longrightarrow> bucket_ok news n b"
    "\<And>n. map_of (stats s) n = None \<Longrightarrow> n \<in> set Object_prototype_keys \<or> items_in [] n news = []"
    "global s = length (filter (unplaced []) news)"
    "sum_list (map (count \<circ> snd) (stats s)) + global s + length (filter (dropped []) news)
       = length news"
  shows "tallied news s"
  unfolding tallied_def using assms by blast

lemma tallied_distinct: "tallied news s \<Longrightarrow> distinct (map fst (stats s))"
  by (simp add: tallied_def)

lemma tallied_bucket: "tallied news s \<Longrightarrow> map_of (stats s) n = Some b \<Longrightarrow> bucket_ok news n b"
  by (simp add: tallied_def)

lemma tallied_absent:
  "tallied news s \<Longrightarrow> map_of (stats s) n = None \<Longrightarrow>
   n \<in> set Object_prototype_keys \<or> items_in [] n news = []"
  by (simp add: tallied_def)

lemma tallied_global: "tallied news s \<Longrightarrow> global s = length (filter (unplaced []) news)"
  by (simp add: tallied_def)

lemma tallied_sum:
  "tallied news s \<Longrightarrow>
   sum_list (map (count \<circ> snd) (stats s)) + global s + length (filter (dropped []) news)
     = length news"
  by (simp add: tallied_def)

lemma sum_assign_own:
  "map_of al k = Some b \<Longrightarrow>
   sum_list (map (count \<circ> snd) (assign k v al)) + count b = sum_list (map (count \<circ> snd) al) + count v"
  by (induction al) (auto split: if_splits)

lemma sum_assign_fresh:
  "map_of al k = None \<Longrightarrow>
   sum_list (map (count \<circ> snd) (assign k v al)) = sum_list (map (count \<circ> snd) al) + count v"
  by (induction al) (auto split: if_splits)

lemma Max_floor_insert:
  "finite S \<Longrightarrow> Max (insert (0::int) (insert a S)) = max (Max (insert 0 S)) a"
  by (simp add: insert_commute [of 0 a] max.commute)

lemma items_in_snoc:
  "items_in ex n (news @ [x]) = items_in ex n news @ (if placed_at ex n x then [x] else [])"
  by (simp add: items_in_def)

lemma items_in_snoc_other: "\<not> placed_at ex n x \<Longrightarrow> items_in ex n (news @ [x]) = items_in ex n news"
  by (simp add: items_in_def)

lemma items_in_snoc_same: "placed_at ex n x \<Longrightarrow> items_in ex n (news @ [x]) = items_in ex n news @ [x]"
  by (simp add: items_in_def)

lemma bucket_ok_other:
  "bucket_ok news m b \<Longrightarrow> \<not> placed_at [] m x \<Longrightarrow> bucket_ok (news @ [x]) m b"
  unfolding bucket_ok_def by (simp add: items_in_snoc_other)

lemma bucket_ok_bump:
  assumes "bucket_ok news n b" "resolve [] x = Inr (Some (n, c))"
  shows "bucket_ok (news @ [x]) n
           (b\<lparr>count := count b + 1, maxThreat := max (maxThreat b) (threatLevel x)\<rparr>)"
proof -
  have p: "placed_at [] n x" using assms(2) by (simp add: placed_at_def)
  have m: "Max (insert 0 (threatLevel ` set (items_in [] n news @ [x])))
             = max (Max (insert 0 (threatLevel ` set (items_in [] n news)))) (threatLevel x)"
    using Max_floor_insert [of "threatLevel ` set (items_in [] n news)" "threatLevel x"] by simp
  from assms(1) obtain i where i: "i \<in> set news" "resolve [] i = Inr (Some (n, coordinates b))"
    unfolding bucket_ok_def by blast
  then have ex: "\<exists>i \<in> set (news @ [x]). resolve [] i = Inr (Some (n, coordinates b))" by auto
  show ?thesis
    unfolding bucket_ok_def items_in_snoc_same [OF p] m
    using assms(1) ex unfolding bucket_ok_def by simp
qed

lemma bucket_ok_fresh:
  assumes "items_in [] n news = []" "resolve [] x = Inr (Some (n, c))"
    "n \<notin> set Object_prototype_keys"
  shows "bucket_ok (news @ [x]) n
           \<lparr>count = 1, maxThreat = max 0 (threatLevel x), name = n, coordinates = c\<rparr>"
proof -
  have p: "placed_at [] n x" using assms(2) by (simp add: placed_at_def)
  show ?thesis
    unfolding bucket_ok_def items_in_snoc_same [OF p] assms(1)
    using assms(2,3) by simp
qed

lemma tallied_initial: "tallied [] (initial ex)"
  by (simp add: tallied_def initial_def items_in_def)

lemma step_unplaced:
  assumes "tallied news s" "resolve [] x = Inr None"
  shows "tallied (news @ [x]) (s\<lparr>global := global s + 1\<rparr>)"
proof (rule tallied_I)
  have np: "\<And>m. \<not> placed_at [] m x" using assms(2) by (simp add: placed_at_def)
  have u: "unplaced [] x" "\<not> dropped [] x" using assms(2) by (simp_all add: unplaced_def dropped_def)
  let ?s = "s\<lparr>global := global s + 1\<rparr>"
  show "distinct (map fst (stats ?s))" using tallied_distinct [OF assms(1)] by simp
  show "bucket_ok (news @ [x]) n b" if "map_of (stats ?s) n = Some b" for n b
    using that tallied_bucket [OF assms(1), of n b] np by (simp add: bucket_ok_other)
  show "n \<in> set Object_prototype_keys \<or> items_in [] n (news @ [x]) = []"
    if "map_of (stats ?s) n = None" for n
    using that tallied_absent [OF assms(1), of n] np by (simp add: items_in_snoc_other)
  show "global ?s = length (filter (unplaced []) (news @ [x]))"
    using tallied_global [OF assms(1)] u by simp
  show "sum_list (map (count \<circ> snd) (stats ?s)) + global ?s
          + length (filter (dropped []) (news @ [x])) = length (news @ [x])"
    using tallied_sum [OF assms(1)] u by simp
qed

lemma step_dropped:
  assumes "tallied news s" "resolve [] x = Inr (Some (n, c))"
    "map_of (stats s) n = None" "n \<in> set Object_prototype_keys"
  shows "tallied (news @ [x]) (s\<lparr>extra := ex'\<rparr>)"
proof (rule tallied_I)
  have p: "\<And>m. placed_at [] m x \<longleftrightarrow> m = n" using assms(2) by (auto simp: placed_at_def)
  have u: "\<not> unplaced [] x" "dropped [] x" using assms(2,4) by (simp_all add: unplaced_def dropped_def)
  let ?s = "s\<lparr>extra := ex'\<rparr>"
  show "distinct (map fst (stats ?s))" using tallied_distinct [OF assms(1)] by simp
  show "bucket_ok (news @ [x]) m b" if "map_of (stats ?s) m = Some b" for m b
  proof -
    from that assms(3) have "m \<noteq> n" by auto
    with that tallied_bucket [OF assms(1), of m b] p show ?thesis by (simp add: bucket_ok_other)
  qed
  show "m \<in> set Object_prototype_keys \<or> items_in [] m (news @ [x]) = []"
    if "map_of (stats ?s) m = None" for m
  proof (cases "m = n")
    case True
    with assms(4) show ?thesis by simp
  next
    case False
    with that tallied_absent [OF assms(1), of m] p show ?thesis by (simp add: items_in_snoc_other)
  qed
  show "global ?s = length (filter (unplaced []) (news @ [x]))"
    using tallied_global [OF assms(1)] u by simp
  show "sum_list (map (count \<circ> snd) (stats ?s)) + global ?s
          + length (filter (dropped []) (news @ [x])) = length (news @ [x])"
    using tallied_sum [OF assms(1)] u by simp
qed

lemma step_assign:
  assumes "tallied news s" "resolve [] x = Inr (Some (n, c))"
    "n \<notin> set Object_prototype_keys" "bucket_ok (news @ [x]) n b'"
    "sum_list (map (count \<circ> snd) (assign n b' (stats s)))
       = sum_list (map (count \<circ> snd) (stats s)) + 1"
  shows "tallied (news @ [x]) (s\<lparr>stats := assign n b' (stats s)\<rparr>)"
proof (rule tallied_I)
  have p: "\<And>m. placed_at [] m x \<longleftrightarrow> m = n" using assms(2) by (auto simp: placed_at_def)
  have u: "\<not> unplaced [] x" "\<not> dropped [] x"
    using assms(2,3) by (simp_all add: unplaced_def dropped_def)
  let ?s = "s\<lparr>stats := assign n b' (stats s)\<rparr>"
  show "distinct (map fst (stats ?s))"
    using tallied_distinct [OF assms(1)] by (simp add: distinct_assign)
  show "bucket_ok (news @ [x]) m b" if "map_of (stats ?s) m = Some b" for m b
  proof (cases "m = n")
    case True
    with that assms(4) show ?thesis by (simp add: map_of_assign)
  next
    case False
    with that have "map_of (stats s) m = Some b" by (simp add: map_of_assign)
    with False tallied_bucket [OF assms(1), of m b] p show ?thesis by (simp add: bucket_ok_other)
  qed
  show "m \<in> set Object_prototype_keys \<or> items_in [] m (news @ [x]) = []"
    if "map_of (stats ?s) m = None" for m
  proof -
    from that have "m \<noteq> n" "map_of (stats s) m = None"
      by (auto simp: map_of_assign split: if_splits)
    with tallied_absent [OF assms(1), of m] p show ?thesis by (simp add: items_in_snoc_other)
  qed
  show "global ?s = length (filter (unplaced []) (news @ [x]))"
    using tallied_global [OF assms(1)] u by simp
  show "sum_list (map (count \<circ> snd) (stats ?s)) + global ?s
          + length (filter (dropped []) (news @ [x])) = length (news @ [x])"
    using tallied_sum [OF assms(1)] u assms(5) by simp
qed

lemma process_item_tallied:
  assumes "tallied news s" "process_item s x = Inr s'"
  shows "tallied (news @ [x]) s'"
proof -
  have r: "resolve (extra s) x = resolve [] x" by (rule resolve_env)
  show ?thesis
  proof (cases "resolve [] x")
    case (Inl e)
    with assms(2) r show ?thesis by (simp add: process_item_def)
  next
    case (Inr p)
    show ?thesis
    proof (cases p)
      case None
      with Inr assms r have "s' = s\<lparr>global := global s + 1\<rparr>" by (simp add: process_item_def)
      with step_unplaced [OF assms(1)] Inr None show ?thesis by simp
    next
      case (Some nc)
      obtain n c where nc: "nc = (n, c)" by (cases nc)
      have res: "resolve [] x = Inr (Some (n, c))" using Inr Some nc by simp
      have up: "upsert s n c (threatLevel x) = Inr s'"
        using assms(2) r res by (simp add: process_item_def)
      show ?thesis
      proof (cases "map_of (stats s) n")
        case (Some b)
        let ?b' = "b\<lparr>count := count b + 1, maxThreat := max (maxThreat b) (threatLevel x)\<rparr>"
        have ok: "bucket_ok news n b" by (rule tallied_bucket [OF assms(1) Some])
        then have nb: "n \<notin> set Object_prototype_keys" by (simp add: bucket_ok_def)
        have sm: "sum_list (map (count \<circ> snd) (assign n ?b' (stats s)))
                    = sum_list (map (count \<circ> snd) (stats s)) + 1"
          using sum_assign_own [OF Some, of ?b'] by simp
        from up upsert_own [OF Some]
          step_assign [OF assms(1) res nb bucket_ok_bump [OF ok res] sm]
        show ?thesis by simp
      next
        case None
        show ?thesis
        proof (cases "n \<in> set Object_prototype_keys")
          case True
          from upsert_inherited [OF None True, of c "threatLevel x"] up
          obtain ex' where "s' = s\<lparr>extra := ex'\<rparr>" by auto
          with step_dropped [OF assms(1) res None True] show ?thesis by simp
        next
          case False
          let ?b' = "\<lparr>count = 1, maxThreat = max 0 (threatLevel x), name = n, coordinates = c\<rparr>"
          have emp: "items_in [] n news = []"
            using tallied_absent [OF assms(1) None] False by simp
          have sm: "sum_list (map (count \<circ> snd) (assign n ?b' (stats s)))
                      = sum_list (map (count \<circ> snd) (stats s)) + 1"
            using sum_assign_fresh [OF None, of ?b'] by simp
          from up upsert_fresh [OF None False]
            step_assign [OF assms(1) res False bucket_ok_fresh [OF emp res False] sm]
          show ?thesis by simp
        qed
      qed
    qed
  qed
qed

lemma forEach_tallied: "forEach (initial ex) news = Inr s \<Longrightarrow> tallied news s"
proof (induction news arbitrary: s rule: rev_induct)
  case Nil
  then show ?case using tallied_initial [of ex] by simp
next
  case (snoc x xs)
  from snoc.prems obtain s0 where s0: "forEach (initial ex) xs = Inr s0" "process_item s0 x = Inr s"
    by (auto simp: forEach_snoc split: sum.splits)
  from process_item_tallied [OF snoc.IH [OF s0(1)] s0(2)] show ?case .
qed

section \<open>From the invariant to the result\<close>

lemma placed_at_env: "placed_at ex n item = placed_at [] n item"
  unfolding placed_at_def using resolve_env [of ex item] by simp

lemma items_in_env: "items_in ex n news = items_in [] n news"
  unfolding items_in_def using placed_at_env [of ex n] by (metis (no_types) filter_cong)

lemma dropped_env: "dropped ex item = dropped [] item"
  unfolding dropped_def using resolve_env [of ex item] by simp

lemma aggregate_Inr:
  "aggregate ex news = Inr out \<Longrightarrow>
   \<exists>s. forEach (initial ex) news = Inr s \<and> regionStats out = map snd (stats s) \<and>
       globalCount out = global s"
  by (auto simp: aggregate_def split: sum.splits)

lemma bucket_in_output:
  assumes "aggregate ex news = Inr out" "b \<in> set (regionStats out)"
  shows "bucket_ok news (name b) b"
proof -
  from aggregate_Inr [OF assms(1)] obtain s where
    s: "forEach (initial ex) news = Inr s" "regionStats out = map snd (stats s)" by blast
  have t: "tallied news s" by (rule forEach_tallied [OF s(1)])
  from assms(2) s(2) obtain n where "(n, b) \<in> set (stats s)" by auto
  with tallied_distinct [OF t] have "map_of (stats s) n = Some b" by simp
  from tallied_bucket [OF t this] show ?thesis by (simp add: bucket_ok_def)
qed

text \<open>
  Conservation of the items, as far as it holds: the bucket counts, the global counter
  and the items dropped on an inherited member add up to the input.
\<close>

lemma count_conservation:
  assumes "aggregate ex news = Inr out"
  shows "sum_list (map count (regionStats out)) + globalCount out
           + length (filter (dropped ex) news) = length news"
proof -
  from aggregate_Inr [OF assms] obtain s where
    s: "forEach (initial ex) news = Inr s" "regionStats out = map snd (stats s)"
       "globalCount out = global s" by blast
  have d: "filter (dropped ex) news = filter (dropped []) news"
    using dropped_env [of ex] by (metis (no_types) filter_cong)
  from tallied_sum [OF forEach_tallied [OF s(1)]] show ?thesis
    by (simp add: s(2,3) d comp_def)
qed

section \<open>Resolution of one item\<close>

lemma resolve_string:
  assumes "parsed_location item = Inr (Str s)" "s \<noteq> []"
  shows "resolve ex item =
     (case locate ex (candidate_label item) (Str s) of
        Inl e \<Rightarrow> Inl e
      | Inr (n, Some c) \<Rightarrow> Inr (Some (n, c))
      | Inr (n, None) \<Rightarrow>
          (case region_center n of Some c \<Rightarrow> Inr (Some (n, c)) | None \<Rightarrow> Inr None))"
  using assms by (simp add: resolve_def)

lemma locate_city:
  assumes "map_of cityCoordinates (trim (toLowerCase s)) = Some (x, y)"
  shows "locate ex n (Str s) = Inr (s, Some (LonLat x y))"
  using assms by (simp add: locate_def lookup_def)

lemma country_key_own:
  assumes "cm \<in> set (Object_keys countryCoordinates)"
  shows "\<exists>x y. map_of countryCoordinates cm = Some (x, y) \<and>
           as_coords (lookup ex countryCoordinates cm) = Some (LonLat x y)"
proof -
  from assms obtain xy where "map_of countryCoordinates cm = Some xy"
    unfolding Object_keys_def by (metis map_of_eq_None_iff not_Some_eq set_map)
  then show ?thesis by (cases xy) (simp add: lookup_def)
qed

lemma locate_country:
  assumes "\<not> present (lookup ex cityCoordinates (trim (toLowerCase s)))"
    "find (\<lambda>c. str_includes (trim (toLowerCase s)) c) (Object_keys countryCoordinates) = Some cm"
    "map_of countryCoordinates cm = Some (x, y)"
  shows "locate ex n (Str s) = Inr (capitalize cm, Some (LonLat x y))"
  using assms by (simp add: locate_def Let_def lookup_def)

lemma locate_none:
  assumes "\<not> present (lookup ex cityCoordinates (trim (toLowerCase s)))"
    "find (\<lambda>c. str_includes (trim (toLowerCase s)) c) (Object_keys countryCoordinates) = None"
  shows "locate ex n (Str s) = Inr (n, None)"
  using assms by (simp add: locate_def Let_def)

lemma resolve_no_match:
  assumes "no_match ex item"
  shows "resolve ex item =
     Inr (case region_center (candidate_label item) of
            Some c \<Rightarrow> Some (candidate_label item, c) | None \<Rightarrow> None)"
proof (cases "parsed_location item")
  case (Inl e)
  with assms show ?thesis by (simp add: no_match_def)
next
  case (Inr l)
  show ?thesis
  proof (cases "truthy l")
    case False
    with Inr show ?thesis by (simp add: resolve_def split: option.split)
  next
    case True
    with assms Inr obtain s where s: "l = Str s" "s \<noteq> []"
      "\<not> present (lookup ex cityCoordinates (trim (toLowerCase s)))"
      "find (\<lambda>c. str_includes (trim (toLowerCase s)) c) (Object_keys countryCoordinates) = None"
      by (cases l) (auto simp: no_match_def)
    from Inr s(1) have pl: "parsed_location item = Inr (Str s)" by simp
    show ?thesis
      unfolding resolve_string [OF pl s(2)] locate_none [OF s(3,4)]
      by (simp split: option.split)
  qed
qed

text \<open>
  What the \<open>try\<close> block does not catch: \<open>parsed\<close> is \<open>null\<close> for the JSON text \<open>null\<close>, and
  \<open>parsed.location\<close> throws outside the block; a truthy location that is not a
  string has no \<open>toLowerCase\<close>.
\<close>

lemma null_details_throw: "details item = Parsed Null \<Longrightarrow> resolve ex item = Inl TypeError"
  by (simp add: resolve_def try_parse_def)

lemma nonstring_location_throws:
  "parsed_location item = Inr l \<Longrightarrow> truthy l \<Longrightarrow> \<forall>s. l \<noteq> Str s \<Longrightarrow>
   resolve ex item = Inl TypeError"
  by (cases l) (simp_all add: resolve_def locate_def)

lemma region_center_labels: "region_center n \<noteq> None \<longleftrightarrow> n \<in> set region_labels"
  by (simp add: region_center_def region_labels_def)

lemma region_label_plain: "n \<in> set region_labels \<Longrightarrow> n \<notin> set Object_prototype_keys"
  by (auto simp: region_labels_def Object_prototype_keys_def)

lemma find_keys:
  "find P (Object_keys own) = map_option fst (find (\<lambda>(c, v). P c) own)"
  unfolding Object_keys_def by (induction own) auto

lemma find_holds: "find P xs = Some x \<Longrightarrow> P x"
  by (induction xs) (auto split: if_splits)

lemma find_first_value:
  "find (\<lambda>(c, v). P c) own = Some (k, v) \<Longrightarrow> map_of own k = Some v"
proof (induction own)
  case Nil
  then show ?case by simp
next
  case (Cons p own)
  from find_holds [OF Cons.prems] have "P k" by simp
  with Cons show ?case by (cases p) (auto split: if_splits)
qed

lemma lookup_env_present: "present (lookup ex own k) = present (lookup [] own k)"
  by (simp add: present_lookup)

lemma no_match_env: "no_match ex item = no_match [] item"
  by (simp add: no_match_def present_lookup split: sum.splits jsval.splits)

lemma upsert_plain:
  assumes "n \<notin> set Object_prototype_keys"
  shows "upsert s n c lvl =
     Inr (s\<lparr>stats :=
            assign n
              ((case map_of (stats s) n of
                  Some b \<Rightarrow> b
                | None \<Rightarrow> \<lparr>count = 0, maxThreat = 0, name = n, coordinates = c\<rparr>)
               \<lparr>count := count (case map_of (stats s) n of
                                  Some b \<Rightarrow> b
                                | None \<Rightarrow> \<lparr>count = 0, maxThreat = 0, name = n, coordinates = c\<rparr>) + 1,
                maxThreat := max (maxThreat (case map_of (stats s) n of
                                  Some b \<Rightarrow> b
                                | None \<Rightarrow> \<lparr>count = 0, maxThreat = 0, name = n, coordinates = c\<rparr>)) lvl\<rparr>)
              (stats s)\<rparr>)"
proof (cases "map_of (stats s) n")
  case None
  with upsert_fresh [OF None assms] show ?thesis by simp
next
  case (Some b)
  with upsert_own [OF Some] show ?thesis by simp
qed

lemma no_match_step:
  assumes "no_match ex item"
  shows "process_item st item =
     (case region_center (candidate_label item) of
        Some centre \<Rightarrow>
          Inr (st\<lparr>stats :=
                 assign (candidate_label item)
                   ((case map_of (stats st) (candidate_label item) of
                       Some b \<Rightarrow> b
                     | None \<Rightarrow> \<lparr>count = 0, maxThreat = 0, name = candidate_label item,
                                coordinates = centre\<rparr>)
                    \<lparr>count := count (case map_of (stats st) (candidate_label item) of
                                       Some b \<Rightarrow> b
                                     | None \<Rightarrow> \<lparr>count = 0, maxThreat = 0,
                                                name = candidate_label item,
                                                coordinates = centre\<rparr>) + 1,
                     maxThreat := max (maxThreat (case map_of (stats st) (candidate_label item) of
                                       Some b \<Rightarrow> b
                                     | None \<Rightarrow> \<lparr>count = 0, maxThreat = 0,
                                                name = candidate_label item,
                                                coordinates = centre\<rparr>))
                                      (threatLevel item)\<rparr>)
                   (stats st)\<rparr>)
      | None \<Rightarrow> Inr (st\<lparr>global := global st + 1\<rparr>))"
proof -
  have nm: "no_match (extra st) item" using assms no_match_env by blast
  note r = resolve_no_match [OF nm]
  show ?thesis
  proof (cases "region_center (candidate_label item)")
    case None
    with r show ?thesis by (simp add: process_item_def)
  next
    case (Some c)
    then have "candidate_label item \<in> set region_labels"
      using region_center_labels [of "candidate_label item"] by simp
    from upsert_plain [OF region_label_plain [OF this], of st c "threatLevel item"] r Some
    show ?thesis by (simp add: process_item_def)
  qed
qed

lemma malformed_no_match: "details item = SyntaxError \<Longrightarrow> no_match ex item"
  by (simp add: no_match_def try_parse_def)

lemma process_item_no_match: "no_match ex item \<Longrightarrow> \<exists>s'. process_item st item = Inr s'"
  using no_match_step [of ex item st] by (auto split: option.splits)

lemma forEach_malformed:
  "\<forall>i \<in> set news. details i = SyntaxError \<Longrightarrow> \<exists>s'. forEach st news = Inr s'"
proof (induction news arbitrary: st)
  case Nil
  then show ?case by simp
next
  case (Cons i news)
  then have "details i = SyntaxError" by simp
  from process_item_no_match [OF malformed_no_match [OF this, of "[]"], of st]
  obtain s1 where "process_item st i = Inr s1" by blast
  with Cons show ?case by simp
qed

lemma resolve_string_cases:
  assumes "parsed_location item = Inr (Str s)" "s \<noteq> []"
  shows "resolve ex item =
     (case map_of cityCoordinates (trim (toLowerCase s)) of
        Some (x, y) \<Rightarrow> Inr (Some (s, LonLat x y))
      | None \<Rightarrow>
          if trim (toLowerCase s) \<in> set Object_prototype_keys
          then Inr (Some (s, Builtin (trim (toLowerCase s))))
          else
            (case find (\<lambda>(c, xy). str_includes (trim (toLowerCase s)) c) countryCoordinates of
               Some (countryMatch, (x, y)) \<Rightarrow> Inr (Some (capitalize countryMatch, LonLat x y))
             | None \<Rightarrow>
                 Inr (case region_center (candidate_label item) of
                        Some c \<Rightarrow> Some (candidate_label item, c)
                      | None \<Rightarrow> None)))"
proof (cases "map_of cityCoordinates (trim (toLowerCase s))")
  case (Some xy)
  obtain x y where xy: "xy = (x, y)" by (cases xy)
  from Some xy locate_city [of s x y ex] show ?thesis
    unfolding resolve_string [OF assms] by simp
next
  case None
  show ?thesis
  proof (cases "trim (toLowerCase s) \<in> set Object_prototype_keys")
    case True
    with None have "locate ex (candidate_label item) (Str s)
                      = Inr (s, Some (Builtin (trim (toLowerCase s))))"
      by (simp add: locate_def lookup_def)
    with None True show ?thesis unfolding resolve_string [OF assms] by simp
  next
    case False
    with None have np: "\<not> present (lookup ex cityCoordinates (trim (toLowerCase s)))"
      by (simp add: present_lookup)
    show ?thesis
    proof (cases "find (\<lambda>(c, xy). str_includes (trim (toLowerCase s)) c) countryCoordinates")
      case fNone: None
      then have "find (\<lambda>c. str_includes (trim (toLowerCase s)) c) (Object_keys countryCoordinates)
                   = None"
        by (simp add: find_keys)
      from locate_none [OF np this] None False fNone show ?thesis
        unfolding resolve_string [OF assms] by (simp split: option.split)
    next
      case (Some p)
      obtain cm x y where p: "p = (cm, (x, y))" by (cases p) auto
      from Some p have f: "find (\<lambda>c. str_includes (trim (toLowerCase s)) c)
                             (Object_keys countryCoordinates) = Some cm"
        by (simp add: find_keys)
      from Some p have m: "map_of countryCoordinates cm = Some (x, y)"
        by (simp add: find_first_value)
      from locate_country [OF np f m] None False Some p show ?thesis
        unfolding resolve_string [OF assms] by simp
    qed
  qed
qed

text \<open>
  A label determines its coordinates: no capitalised country key, region label or
  inherited member name reads as a city.
\<close>

lemma inherited_names_not_cities:
  "\<forall>k \<in> set Object_prototype_keys. map_of cityCoordinates (trim (toLowerCase k)) = None"
  by code_simp

lemma country_names_not_cities:
  "\<forall>p \<in> set countryCoordinates.
     map_of cityCoordinates (trim (toLowerCase (capitalize (fst p)))) = None"
  by code_simp

lemma region_labels_not_cities:
  "\<forall>n \<in> set region_labels. map_of cityCoordinates (trim (toLowerCase n)) = None"
  by code_simp

lemma empty_not_city: "map_of cityCoordinates (trim (toLowerCase [])) = None"
  by code_simp

lemma find_in_set: "find P xs = Some x \<Longrightarrow> x \<in> set xs"
  by (induction xs) (auto split: if_splits)

lemma resolve_routes:
  assumes "resolve ex item = Inr (Some (n, c))"
  shows "(\<exists>s. parsed_location item = Inr (Str s) \<and> s \<noteq> [] \<and> n = s \<and>
              (case map_of cityCoordinates (trim (toLowerCase s)) of
                 Some (x, y) \<Rightarrow> c = LonLat x y
               | None \<Rightarrow> trim (toLowerCase s) \<in> set Object_prototype_keys)) \<or>
         (\<exists>p \<in> set countryCoordinates. n = capitalize (fst p)) \<or>
         n \<in> set region_labels"
proof (cases "parsed_location item")
  case (Inl e)
  with assms show ?thesis by (simp add: resolve_def)
next
  case (Inr l)
  show ?thesis
  proof (cases "truthy l")
    case False
    with Inr assms have "region_center n = Some c"
      by (auto simp: resolve_def Let_def split: option.splits)
    with region_center_labels [of n] show ?thesis by simp
  next
    case True
    show ?thesis
    proof (cases l)
      case (Str s)
      with True have ne: "s \<noteq> []" by simp
      from Inr Str have pl: "parsed_location item = Inr (Str s)" by simp
      note r = resolve_string_cases [OF pl ne, of ex]
      show ?thesis
      proof (cases "map_of cityCoordinates (trim (toLowerCase s))")
        case (Some xy)
        with r assms pl ne show ?thesis by (cases xy) auto
      next
        case None
        show ?thesis
        proof (cases "trim (toLowerCase s) \<in> set Object_prototype_keys")
          case True
          with None r assms pl ne show ?thesis by auto
        next
          case False
          show ?thesis
          proof (cases "find (\<lambda>(c, xy). str_includes (trim (toLowerCase s)) c) countryCoordinates")
            case fNone: None
            with None False r assms have "region_center n = Some c"
              by (auto split: option.splits)
            with region_center_labels [of n] show ?thesis by simp
          next
            case (Some p)
            from find_in_set [OF Some] have "p \<in> set countryCoordinates" .
            moreover from Some None False r assms have "n = capitalize (fst p)"
              by (cases p) auto
            ultimately show ?thesis by blast
          qed
        qed
      qed
    qed (use True Inr assms in \<open>simp_all add: resolve_def locate_def\<close>)
  qed
qed

lemma city_name_coords:
  assumes "resolve ex item = Inr (Some (n, c))"
    "map_of cityCoordinates (trim (toLowerCase n)) = Some (x, y)"
  shows "c = LonLat x y"
  using resolve_routes [OF assms(1)] assms(2)
    country_names_not_cities region_labels_not_cities
  by auto

lemma city_name_plain:
  "map_of cityCoordinates (trim (toLowerCase s)) = Some xy \<Longrightarrow> s \<notin> set Object_prototype_keys"
  using inherited_names_not_cities by auto

lemma city_bucket:
  assumes "aggregate ex news = Inr out" "i \<in> set news"
    "parsed_location i = Inr (Str l)"
    "map_of cityCoordinates (trim (toLowerCase l)) = Some (x, y)"
  shows "\<exists>b \<in> set (regionStats out). name b = l \<and> coordinates b = LonLat x y"
proof -
  from aggregate_Inr [OF assms(1)] obtain s where
    s: "forEach (initial ex) news = Inr s" "regionStats out = map snd (stats s)" by blast
  have t: "tallied news s" by (rule forEach_tallied [OF s(1)])
  have ne: "l \<noteq> []" using assms(4) empty_not_city by auto
  have r: "resolve [] i = Inr (Some (l, LonLat x y))"
    using resolve_string_cases [OF assms(3) ne, of "[]"] assms(4) by simp
  then have "placed_at [] l i" by (simp add: placed_at_def)
  with assms(2) have "items_in [] l news \<noteq> []" by (auto simp: items_in_def filter_empty_conv)
  with tallied_absent [OF t, of l] city_name_plain [OF assms(4)]
  obtain b where b: "map_of (stats s) l = Some b" by auto
  from tallied_bucket [OF t b] obtain j where
    j: "name b = l" "resolve [] j = Inr (Some (l, coordinates b))"
    by (auto simp: bucket_ok_def)
  from city_name_coords [OF j(2) assms(4)] have "coordinates b = LonLat x y" .
  moreover from b have "b \<in> set (map snd (stats s))" by (force dest: map_of_SomeD)
  ultimately show ?thesis using j(1) s(2) by auto
qed

section \<open>Independence of the environment\<close>

lemma upsert_env:
  assumes "stats s = stats t" "global s = global t"
  shows "\<exists>s' t'. upsert s n c lvl = Inr s' \<and> upsert t n c lvl = Inr t' \<and>
           stats s' = stats t' \<and> global s' = global t'"
proof (cases "map_of (stats s) n")
  case (Some b)
  with assms have "map_of (stats t) n = Some b" by simp
  from upsert_own [OF Some, of c lvl] upsert_own [OF this, of c lvl] assms
  show ?thesis by simp
next
  case None
  with assms have nt: "map_of (stats t) n = None" by simp
  show ?thesis
  proof (cases "n \<in> set Object_prototype_keys")
    case True
    from upsert_inherited [OF None True, of c lvl] upsert_inherited [OF nt True, of c lvl] assms
    show ?thesis by auto
  next
    case False
    from upsert_fresh [OF None False, of c lvl] upsert_fresh [OF nt False, of c lvl] assms
    show ?thesis by simp
  qed
qed

lemma process_item_env:
  assumes "stats s = stats t" "global s = global t"
  shows "(\<exists>e. process_item s x = Inl e \<and> process_item t x = Inl e) \<or>
         (\<exists>s' t'. process_item s x = Inr s' \<and> process_item t x = Inr t' \<and>
            stats s' = stats t' \<and> global s' = global t')"
proof -
  have r: "resolve (extra s) x = resolve [] x" "resolve (extra t) x = resolve [] x"
    by (rule resolve_env)+
  show ?thesis
  proof (cases "resolve [] x")
    case (Inl e)
    with r show ?thesis by (simp add: process_item_def)
  next
    case (Inr p)
    show ?thesis
    proof (cases p)
      case None
      with Inr r assms show ?thesis by (simp add: process_item_def)
    next
      case (Some nc)
      obtain n c where "nc = (n, c)" by (cases nc)
      with Some Inr r upsert_env [OF assms, of n c "threatLevel x"] show ?thesis
        by (simp add: process_item_def)
    qed
  qed
qed

lemma forEach_env:
  assumes "stats s = stats t" "global s = global t"
  shows "(\<exists>e. forEach s news = Inl e \<and> forEach t news = Inl e) \<or>
         (\<exists>s' t'. forEach s news = Inr s' \<and> forEach t news = Inr t' \<and>
            stats s' = stats t' \<and> global s' = global t')"
  using assms
proof (induction news arbitrary: s t)
  case Nil
  then show ?case by simp
next
  case (Cons x news)
  from process_item_env [OF Cons.prems, of x] show ?case
  proof (elim disjE exE conjE)
    fix e assume "process_item s x = Inl e" "process_item t x = Inl e"
    then show ?thesis by simp
  next
    fix s' t'
    assume st: "process_item s x = Inr s'" "process_item t x = Inr t'"
      "stats s' = stats t'" "global s' = global t'"
    from Cons.IH [OF st(3,4)] st(1,2) show ?thesis by simp
  qed
qed

lemma aggregate_env: "aggregate ex news = aggregate ex' news"
proof -
  have "stats (initial ex) = stats (initial ex')" "global (initial ex) = global (initial ex')"
    by (simp_all add: initial_def)
  from forEach_env [OF this, of news] show ?thesis
    by (auto simp: aggregate_def)
qed

section \<open>The region filter\<close>

lemma region_filter_Middle_East:
  "region_filter ex (Some ''Middle East'') = region_filter ex (Some ''MENA'')"
  by (simp add: region_filter_def)

lemma region_filter_MENA:
  "region_filter ex (Some ''MENA'') =
     Inr (OR (map Contains [''mena'', ''middle east'', ''uae'', ''saudi'', ''qatar'', ''dubai'',
                            ''abu dhabi'', ''israel'', ''turkey'', ''egypt'']))"
  by (simp add: region_filter_def lookup_def regionMappings_def)

lemma region_filter_fallback:
  assumes "requested \<noteq> []" "requested \<noteq> ''Middle East''"
    "requested \<notin> set (Object_keys regionMappings)" "requested \<notin> set Object_prototype_keys"
  shows "region_filter ex (Some requested) = Inr (Region (Equals requested))"
proof -
  from assms(3) have "map_of regionMappings requested = None"
    by (simp add: Object_keys_def map_of_eq_None_iff)
  with assms show ?thesis by (simp add: region_filter_def lookup_def)
qed

text \<open>
  The fallback of the region step under the test the code applies, \<open>finalCoords\<close> still
  \<open>null\<close>: the five labels and their centres.
\<close>

lemma region_centres:
  "map region_center region_labels =
     [Some (LonLat 45 25), Some (LonLat 15 50), Some (LonLat (- 100) 40), Some (LonLat 100 20),
      Some (LonLat (- 60) (- 15))]"
  by (simp add: region_center_def region_labels_def)

section \<open>The claims\<close>

text \<open>
  C1.  The sum of the bucket counts plus the unresolved count should equal the number
  of input items.  The code loses an item whose location text is the name of an
  inherited member: for the details \<open>{"location":"constructor"}\<close> the read
  \<open>cityCoordinates["constructor"]\<close> is truthy, \<open>stats["constructor"]\<close> is truthy as well,
  so no bucket is created, the increment lands on the built-in function, and the
  counter \<open>global\<close> is not touched: one item in, nothing counted.
\<close>

theorem constructor_item_uncounted:
  "aggregate [] [constructor_item] = Inr \<lparr>regionStats = [], globalCount = 0\<rparr> \<and>
   sum_list (map count (regionStats \<lparr>regionStats = [], globalCount = 0\<rparr>))
     + globalCount \<lparr>regionStats = [], globalCount = 0\<rparr> \<noteq> length [constructor_item]"
  by code_simp

text \<open>
  C2.  \<open>maxThreat\<close> starts at 0, so the severity of a bucket is the larger of 0 and the
  greatest \<open>threatLevel\<close> among the items placed in it; it is the true maximum exactly
  when that is not negative.  At a single item of level \<open>-1\<close> the bucket shows 0.
\<close>

theorem maxThreat_true_max_counterexample:
  "aggregate [] [negative_item] =
     Inr \<lparr>regionStats = [\<lparr>count = 1, maxThreat = 0, name = ''Europe'', coordinates = LonLat 15 50\<rparr>],
          globalCount = 0\<rparr> \<and>
   items_in [] ''Europe'' [negative_item] = [negative_item] \<and>
   Max (threatLevel ` set (items_in [] ''Europe'' [negative_item])) = - 1 \<and>
   maxThreat \<lparr>count = 1, maxThreat = 0, name = ''Europe'', coordinates = LonLat 15 50\<rparr>
     \<noteq> Max (threatLevel ` set (items_in [] ''Europe'' [negative_item]))"
proof -
  have run: "aggregate [] [negative_item] =
     Inr \<lparr>regionStats = [\<lparr>count = 1, maxThreat = 0, name = ''Europe'', coordinates = LonLat 15 50\<rparr>],
          globalCount = 0\<rparr>"
    by code_simp
  have it: "items_in [] ''Europe'' [negative_item] = [negative_item]"
    by code_simp
  have lv: "threatLevel negative_item = - 1" by (simp add: negative_item_def)
  show ?thesis unfolding it using run lv by simp
qed

text \<open>
  C2, as the code has it: every bucket of the result holds at least one item, and its
  \<open>maxThreat\<close> is the maximum of 0 and the levels of the items placed in it.
\<close>

theorem maxThreat_floor_max:
  assumes "aggregate ex news = Inr out" "b \<in> set (regionStats out)"
  shows "items_in ex (name b) news \<noteq> [] \<and>
         maxThreat b = max 0 (Max (threatLevel ` set (items_in ex (name b) news)))"
proof -
  have ok: "bucket_ok news (name b) b" by (rule bucket_in_output [OF assms])
  have e: "items_in ex (name b) news = items_in [] (name b) news" by (rule items_in_env)
  from ok have ne: "items_in [] (name b) news \<noteq> []" by (auto simp: bucket_ok_def)
  from ok have "maxThreat b = Max (insert 0 (threatLevel ` set (items_in [] (name b) news)))"
    by (simp add: bucket_ok_def)
  also have "\<dots> = max 0 (Max (threatLevel ` set (items_in [] (name b) news)))"
    using ne by simp
  finally show ?thesis using ne e by simp
qed

theorem maxThreat_floor_max_witness:
  "aggregate [] europe_twice =
     Inr \<lparr>regionStats = [\<lparr>count = 2, maxThreat = 4, name = ''Europe'', coordinates = LonLat 15 50\<rparr>],
          globalCount = 1\<rparr> \<and>
   (4::int) = max 0 (Max (threatLevel ` set (items_in [] ''Europe'' europe_twice)))"
proof -
  let ?b = "\<lparr>count = 2, maxThreat = 4, name = ''Europe'', coordinates = LonLat 15 50\<rparr>"
  have run: "aggregate [] europe_twice = Inr \<lparr>regionStats = [?b], globalCount = 1\<rparr>"
    by code_simp
  have "?b \<in> set (regionStats \<lparr>regionStats = [?b], globalCount = 1\<rparr>)" by simp
  from maxThreat_floor_max [OF run this] run show ?thesis by simp
qed

text \<open>
  C6.  The empty input gives no bucket and a zero counter, and every bucket of every
  result has a count of at least one.
\<close>

theorem buckets_nonempty:
  "aggregate ex [] = Inr \<lparr>regionStats = [], globalCount = 0\<rparr> \<and>
   (\<forall>out. aggregate ex news = Inr out \<longrightarrow> (\<forall>b \<in> set (regionStats out). 1 \<le> count b))"
proof
  show "aggregate ex [] = Inr \<lparr>regionStats = [], globalCount = 0\<rparr>"
    by (simp add: aggregate_def initial_def)
  show "\<forall>out. aggregate ex news = Inr out \<longrightarrow> (\<forall>b \<in> set (regionStats out). 1 \<le> count b)"
  proof (intro allI impI ballI)
    fix out b
    assume "aggregate ex news = Inr out" "b \<in> set (regionStats out)"
    from bucket_in_output [OF this] show "1 \<le> count b" by (simp add: bucket_ok_def)
  qed
qed

theorem buckets_nonempty_witness:
  "aggregate [] europe_twice =
     Inr \<lparr>regionStats = [\<lparr>count = 2, maxThreat = 4, name = ''Europe'', coordinates = LonLat 15 50\<rparr>],
          globalCount = 1\<rparr> \<and>
   1 \<le> count \<lparr>count = 2, maxThreat = 4, name = ''Europe'', coordinates = LonLat 15 50\<rparr>"
proof -
  have run: "aggregate [] europe_twice =
     Inr \<lparr>regionStats = [\<lparr>count = 2, maxThreat = 4, name = ''Europe'', coordinates = LonLat 15 50\<rparr>],
          globalCount = 1\<rparr>"
    by code_simp
  from buckets_nonempty [of "[]" europe_twice] run
  have "\<forall>b \<in> set [\<lparr>count = 2, maxThreat = 4, name = ''Europe'', coordinates = LonLat 15 50\<rparr>].
          1 \<le> count b"
    by fastforce
  with run show ?thesis by simp
qed

text \<open>
  C3.  For an item whose \<open>parsed.location\<close> is a non-empty string, resolution runs in a
  fixed order and the first match wins: a city-table entry for the trimmed lower-case
  text gives the original text as bucket name and the entry as coordinates, whatever
  the country table and the region say; only without one is the country table
  searched, and only without a country the region centre.  (Between city and
  country the read of the city table also answers for inherited member names.)
\<close>

theorem resolution_order:
  assumes "parsed_location item = Inr (Str s)" "s \<noteq> []"
  shows "resolve ex item =
     (case map_of cityCoordinates (trim (toLowerCase s)) of
        Some (x, y) \<Rightarrow> Inr (Some (s, LonLat x y))
      | None \<Rightarrow>
          if trim (toLowerCase s) \<in> set Object_prototype_keys
          then Inr (Some (s, Builtin (trim (toLowerCase s))))
          else
            (case find (\<lambda>(c, xy). str_includes (trim (toLowerCase s)) c) countryCoordinates of
               Some (countryMatch, (x, y)) \<Rightarrow> Inr (Some (capitalize countryMatch, LonLat x y))
             | None \<Rightarrow>
                 Inr (case region_center (candidate_label item) of
                        Some c \<Rightarrow> Some (candidate_label item, c)
                      | None \<Rightarrow> None)))"
  by (rule resolve_string_cases [OF assms])

theorem resolution_order_witness:
  "parsed_location tokyo_item = Inr (Str ''Tokyo, Japan'') \<and> ''Tokyo, Japan'' \<noteq> [] \<and>
   str_includes (trim (toLowerCase ''Tokyo, Japan'')) ''japan'' \<and>
   resolve [] tokyo_item = Inr (Some (''Tokyo, Japan'', LonLat 139.6917 35.6895)) \<and>
   aggregate [] [tokyo_item] =
     Inr \<lparr>regionStats =
            [\<lparr>count = 1, maxThreat = 3, name = ''Tokyo, Japan'',
              coordinates = LonLat 139.6917 35.6895\<rparr>],
          globalCount = 0\<rparr>"
proof -
  have pl: "parsed_location tokyo_item = Inr (Str ''Tokyo, Japan'')" by code_simp
  have ne: "''Tokyo, Japan'' \<noteq> []" by simp
  have city: "map_of cityCoordinates (trim (toLowerCase ''Tokyo, Japan''))
                = Some (139.6917, 35.6895)"
    by code_simp
  have sub: "str_includes (trim (toLowerCase ''Tokyo, Japan'')) ''japan''" by code_simp
  have run: "aggregate [] [tokyo_item] =
     Inr \<lparr>regionStats =
            [\<lparr>count = 1, maxThreat = 3, name = ''Tokyo, Japan'',
              coordinates = LonLat 139.6917 35.6895\<rparr>],
          globalCount = 0\<rparr>"
    by code_simp
  from resolution_order [OF pl ne, of "[]"] city
  have "resolve [] tokyo_item = Inr (Some (''Tokyo, Japan'', LonLat 139.6917 35.6895))"
    by simp
  with pl ne sub run show ?thesis by simp
qed

text \<open>
  C4.  An item whose details do not parse (\<open>JSON.parse\<close> throws, as for the empty
  text) carries no location, its processing returns without an exception and goes
  through the region fallback; an input of such items only never raises.
\<close>

theorem malformed_details_tolerated:
  "(details item = SyntaxError \<longrightarrow>
      parsed_location item = Inr Undefined \<and> no_match ex item \<and>
      (\<exists>s'. process_item st item = Inr s')) \<and>
   ((\<forall>i \<in> set news. details i = SyntaxError) \<longrightarrow> (\<exists>out. aggregate ex news = Inr out))"
proof (intro conjI impI)
  assume d: "details item = SyntaxError"
  then show "parsed_location item = Inr Undefined" by (simp add: try_parse_def)
  show "no_match ex item" by (rule malformed_no_match [OF d])
  then show "\<exists>s'. process_item st item = Inr s'" by (rule process_item_no_match)
next
  assume "\<forall>i \<in> set news. details i = SyntaxError"
  from forEach_malformed [OF this, of "initial ex"] show "\<exists>out. aggregate ex news = Inr out"
    by (auto simp: aggregate_def)
qed

theorem malformed_details_tolerated_witness:
  "details europe_item = SyntaxError \<and> details unlabelled_item = SyntaxError \<and>
   no_match [] europe_item \<and>
   aggregate [] [europe_item, unlabelled_item] =
     Inr \<lparr>regionStats = [\<lparr>count = 1, maxThreat = 2, name = ''Europe'',
                            coordinates = LonLat 15 50\<rparr>],
          globalCount = 1\<rparr>"
proof -
  have d: "details europe_item = SyntaxError" "details unlabelled_item = SyntaxError"
    by (simp_all add: europe_item_def unlabelled_item_def)
  then have a: "\<forall>i \<in> set [europe_item, unlabelled_item]. details i = SyntaxError" by simp
  from malformed_details_tolerated [of europe_item "[]" "initial []" "[europe_item, unlabelled_item]"] d a
  have nm: "no_match [] europe_item"
    and ex: "\<exists>out. aggregate [] [europe_item, unlabelled_item] = Inr out" by blast+
  have "aggregate [] [europe_item, unlabelled_item] =
     Inr \<lparr>regionStats = [\<lparr>count = 1, maxThreat = 2, name = ''Europe'',
                            coordinates = LonLat 15 50\<rparr>],
          globalCount = 1\<rparr>"
    by code_simp
  with d nm show ?thesis by simp
qed

text \<open>
  C5.  An item with no city or country match and the label \<open>Europe\<close> should be counted
  in the bucket \<open>Europe\<close> at the centre of the region.  The code misses it when the
  location text reads as an inherited member: \<open>Constructor\<close> is in neither table, but
  \<open>cityCoordinates["constructor"]\<close> is truthy, so the region step is skipped and the
  item makes a bucket \<open>Constructor\<close> whose coordinates are the built-in function.
\<close>

theorem inherited_name_skips_region_fallback:
  "candidate_label capital_constructor_item = ''Europe'' \<and>
   parsed_location capital_constructor_item = Inr (Str ''Constructor'') \<and>
   map_of cityCoordinates (trim (toLowerCase ''Constructor'')) = None \<and>
   find (\<lambda>c. str_includes (trim (toLowerCase ''Constructor'')) c)
     (Object_keys countryCoordinates) = None \<and>
   region_center ''Europe'' = Some (LonLat 15 50) \<and>
   aggregate [] [capital_constructor_item] =
     Inr \<lparr>regionStats =
            [\<lparr>count = 1, maxThreat = 2, name = ''Constructor'',
              coordinates = Builtin ''constructor''\<rparr>],
          globalCount = 0\<rparr>"
proof -
  have a: "candidate_label capital_constructor_item = ''Europe''" by code_simp
  have b: "parsed_location capital_constructor_item = Inr (Str ''Constructor'')" by code_simp
  have c: "map_of cityCoordinates (trim (toLowerCase ''Constructor'')) = None" by code_simp
  have d: "find (\<lambda>c. str_includes (trim (toLowerCase ''Constructor'')) c)
             (Object_keys countryCoordinates) = None"
    by code_simp
  have e: "region_center ''Europe'' = Some (LonLat 15 50)" by (simp add: region_center_def)
  have f: "aggregate [] [capital_constructor_item] =
     Inr \<lparr>regionStats =
            [\<lparr>count = 1, maxThreat = 2, name = ''Constructor'',
              coordinates = Builtin ''constructor''\<rparr>],
          globalCount = 0\<rparr>"
    by code_simp
  from a b c d e f show ?thesis by simp
qed

text \<open>
  C8.  \<open>Object.keys(countryCoordinates)\<close> is the declaration order, and \<open>find\<close> returns
  the first key in that order that occurs in the normalised location: when several
  keys occur, the earliest declared one is selected, wherever it stands in the text.
\<close>

theorem country_declaration_order:
  assumes "\<not> present (lookup ex cityCoordinates (trim (toLowerCase s)))"
    "i < length country_order"
    "str_includes (trim (toLowerCase s)) (country_order ! i)"
    "\<forall>j < i. \<not> str_includes (trim (toLowerCase s)) (country_order ! j)"
  shows "Object_keys countryCoordinates = country_order \<and>
         (\<exists>x y. map_of countryCoordinates (country_order ! i) = Some (x, y) \<and>
                locate ex n (Str s) = Inr (capitalize (country_order ! i), Some (LonLat x y)))"
proof
  show k: "Object_keys countryCoordinates = country_order"
    by (simp add: Object_keys_def countryCoordinates_def country_order_def)
  have f: "find (\<lambda>c. str_includes (trim (toLowerCase s)) c) (Object_keys countryCoordinates)
             = Some (country_order ! i)"
    unfolding k find_Some_iff using assms(2,3,4) by blast
  have "country_order ! i \<in> set (Object_keys countryCoordinates)"
    unfolding k using assms(2) by simp
  from country_key_own [OF this, of ex] obtain x y where
    m: "map_of countryCoordinates (country_order ! i) = Some (x, y)" by blast
  from locate_country [OF assms(1) f m] m
  show "\<exists>x y. map_of countryCoordinates (country_order ! i) = Some (x, y) \<and>
          locate ex n (Str s) = Inr (capitalize (country_order ! i), Some (LonLat x y))"
    by blast
qed

theorem country_declaration_order_witness:
  "\<not> present (lookup [] cityCoordinates (trim (toLowerCase ''UK and Canada''))) \<and>
   (1::nat) < length country_order \<and> country_order ! 1 = ''canada'' \<and> country_order ! 2 = ''uk'' \<and>
   str_includes (trim (toLowerCase ''UK and Canada'')) ''canada'' \<and>
   str_includes (trim (toLowerCase ''UK and Canada'')) ''uk'' \<and>
   \<not> str_includes (trim (toLowerCase ''UK and Canada'')) ''usa'' \<and>
   locate [] ''Europe'' (Str ''UK and Canada'') = Inr (''Canada'', Some (LonLat (- 106.3468) 56.1304))"
proof -
  have a1: "\<not> present (lookup [] cityCoordinates (trim (toLowerCase ''UK and Canada'')))"
    by code_simp
  have a2: "(1::nat) < length country_order" by (simp add: country_order_def)
  have k: "country_order ! 1 = ''canada''" "country_order ! 2 = ''uk''" "country_order ! 0 = ''usa''"
    by (simp_all add: country_order_def)
  have a3: "str_includes (trim (toLowerCase ''UK and Canada'')) ''canada''" by code_simp
  have a3': "str_includes (trim (toLowerCase ''UK and Canada'')) ''uk''" by code_simp
  have a4: "\<not> str_includes (trim (toLowerCase ''UK and Canada'')) ''usa''" by code_simp
  have a5: "\<forall>j < (1::nat). \<not> str_includes (trim (toLowerCase ''UK and Canada'')) (country_order ! j)"
    using a4 k(3) by simp
  have m: "map_of countryCoordinates ''canada'' = Some (- 106.3468, 56.1304)"
    by (simp add: countryCoordinates_def)
  have c: "capitalize ''canada'' = ''Canada''" by code_simp
  from country_declaration_order [OF a1 a2 _ a5, of "''Europe''"] a3 k(1) m c
  have "locate [] ''Europe'' (Str ''UK and Canada'')
          = Inr (''Canada'', Some (LonLat (- 106.3468) 56.1304))"
    by auto
  with a1 a2 k a3 a3' a4 show ?thesis by simp
qed

text \<open>
  C7.  The result is a function of the input alone: it does not depend on the names
  that earlier runs left on \<open>Object.prototype\<close>, so a second run, started in the
  environment the first one ended in, returns what the first returned.
\<close>

theorem aggregate_repeatable:
  "aggregate ex news = aggregate ex' news \<and>
   (\<forall>s. forEach (initial ex) news = Inr s \<longrightarrow> aggregate (extra s) news = aggregate ex news)"
  using aggregate_env by blast

theorem aggregate_repeatable_witness:
  "forEach (initial []) [proto_item, europe_item] =
     Inr \<lparr>stats = [(''Europe'', \<lparr>count = 1, maxThreat = 2, name = ''Europe'',
                                 coordinates = LonLat 15 50\<rparr>)],
          global = 0, extra = [''count'', ''maxThreat'']\<rparr> \<and>
   aggregate [''count'', ''maxThreat''] [proto_item, europe_item]
     = aggregate [] [proto_item, europe_item]"
proof -
  have run: "forEach (initial []) [proto_item, europe_item] =
     Inr \<lparr>stats = [(''Europe'', \<lparr>count = 1, maxThreat = 2, name = ''Europe'',
                                 coordinates = LonLat 15 50\<rparr>)],
          global = 0, extra = [''count'', ''maxThreat'']\<rparr>"
    by code_simp
  from aggregate_repeatable [of "[]" "[proto_item, europe_item]" "[]"] run
  show ?thesis by simp
qed


text \<open>
  C10.  Two items of one input whose location texts differ, agree after lower-casing
  and hit a city entry get two buckets, each named by its own text, both at the
  coordinates of that entry.
\<close>

theorem case_variants_kept_apart:
  assumes "aggregate ex news = Inr out" "i1 \<in> set news" "i2 \<in> set news"
    "parsed_location i1 = Inr (Str l1)" "parsed_location i2 = Inr (Str l2)"
    "l1 \<noteq> l2" "toLowerCase l1 = toLowerCase l2"
    "map_of cityCoordinates (trim (toLowerCase l1)) = Some (x, y)"
  shows "\<exists>b1 b2. b1 \<in> set (regionStats out) \<and> b2 \<in> set (regionStats out) \<and> b1 \<noteq> b2 \<and>
           name b1 = l1 \<and> name b2 = l2 \<and>
           coordinates b1 = LonLat x y \<and> coordinates b2 = LonLat x y"
proof -
  from city_bucket [OF assms(1,2,4,8)] obtain b1 where
    b1: "b1 \<in> set (regionStats out)" "name b1 = l1" "coordinates b1 = LonLat x y" by blast
  from assms(7,8) have "map_of cityCoordinates (trim (toLowerCase l2)) = Some (x, y)" by simp
  from city_bucket [OF assms(1,3,5) this] obtain b2 where
    b2: "b2 \<in> set (regionStats out)" "name b2 = l2" "coordinates b2 = LonLat x y" by blast
  from b1(2) b2(2) assms(6) have "b1 \<noteq> b2" by auto
  with b1 b2 show ?thesis by blast
qed

theorem case_variants_kept_apart_witness:
  "parsed_location tokyo_item = Inr (Str ''Tokyo, Japan'') \<and>
   parsed_location shouting_tokyo_item = Inr (Str ''TOKYO, JAPAN'') \<and>
   toLowerCase ''Tokyo, Japan'' = toLowerCase ''TOKYO, JAPAN'' \<and>
   aggregate [] [tokyo_item, shouting_tokyo_item] =
     Inr \<lparr>regionStats =
            [\<lparr>count = 1, maxThreat = 3, name = ''Tokyo, Japan'',
              coordinates = LonLat 139.6917 35.6895\<rparr>,
             \<lparr>count = 1, maxThreat = 4, name = ''TOKYO, JAPAN'',
              coordinates = LonLat 139.6917 35.6895\<rparr>],
          globalCount = 0\<rparr> \<and>
   (\<exists>b1 b2. b1 \<in> set [\<lparr>count = 1, maxThreat = 3, name = ''Tokyo, Japan'',
                          coordinates = LonLat 139.6917 35.6895\<rparr>,
                        \<lparr>count = 1, maxThreat = 4, name = ''TOKYO, JAPAN'',
                          coordinates = LonLat 139.6917 35.6895\<rparr>] \<and>
            b2 \<in> set [\<lparr>count = 1, maxThreat = 3, name = ''Tokyo, Japan'',
                          coordinates = LonLat 139.6917 35.6895\<rparr>,
                        \<lparr>count = 1, maxThreat = 4, name = ''TOKYO, JAPAN'',
                          coordinates = LonLat 139.6917 35.6895\<rparr>] \<and>
            b1 \<noteq> b2 \<and> name b1 = ''Tokyo, Japan'' \<and> name b2 = ''TOKYO, JAPAN'' \<and>
            coordinates b1 = LonLat 139.6917 35.6895 \<and>
            coordinates b2 = LonLat 139.6917 35.6895)"
proof -
  have p1: "parsed_location tokyo_item = Inr (Str ''Tokyo, Japan'')" by code_simp
  have p2: "parsed_location shouting_tokyo_item = Inr (Str ''TOKYO, JAPAN'')" by code_simp
  have d: "''Tokyo, Japan'' \<noteq> ''TOKYO, JAPAN''" by simp
  have lc: "toLowerCase ''Tokyo, Japan'' = toLowerCase ''TOKYO, JAPAN''" by code_simp
  have city: "map_of cityCoordinates (trim (toLowerCase ''Tokyo, Japan''))
                = Some (139.6917, 35.6895)"
    by code_simp
  have run: "aggregate [] [tokyo_item, shouting_tokyo_item] =
     Inr \<lparr>regionStats =
            [\<lparr>count = 1, maxThreat = 3, name = ''Tokyo, Japan'',
              coordinates = LonLat 139.6917 35.6895\<rparr>,
             \<lparr>count = 1, maxThreat = 4, name = ''TOKYO, JAPAN'',
              coordinates = LonLat 139.6917 35.6895\<rparr>],
          globalCount = 0\<rparr>"
    by code_simp
  have m: "tokyo_item \<in> set [tokyo_item, shouting_tokyo_item]"
    "shouting_tokyo_item \<in> set [tokyo_item, shouting_tokyo_item]" by simp_all
  from case_variants_kept_apart [OF run m p1 p2 d lc city] p1 p2 lc run
  show ?thesis by simp
qed

end
